theory Spec2Isabelle
  imports Complex_Main "HOL-Library.Multiset" "HOL-Library.Log_Nat"
begin

section \<open>JavaScript numbers for money\<close>

text \<open>
  Balances and amounts are JavaScript numbers, that is IEEE 754 binary64 values. An
  amount is what \<^verbatim>\<open>parseFloat\<close> returns for the request's decimal string: a finite
  double, given here by its exact rational value. A balance starts finite and is only
  ever changed by adding an amount to it, so it is a finite double or, after an
  overflow, one of the two infinities; \<^verbatim>\<open>NaN\<close> cannot arise from a balance and a finite
  amount. The two zeros are not told apart: they compare equal and print the same.
  A string that parses to \<^verbatim>\<open>Infinity\<close> is not an amount of money and is left out.
\<close>

datatype jsnum = Fin rat | PosInfinity | NegInfinity

text \<open>\<open>pow2 i\<close> is \<open>2\<^sup>i\<close> for an integer \<open>i\<close>.\<close>

definition pow2 :: "int \<Rightarrow> rat" where
  "pow2 i = (if 0 \<le> i then 2 ^ nat i else 1 / 2 ^ nat (- i))"

text \<open>
  \<open>ilog2 a\<close> is the binary exponent of a positive rational: the \<open>e\<close> with
  \<open>2\<^sup>e \<le> a < 2\<^sup>e\<^sup>+\<^sup>1\<close> (lemma \<open>ilog2_bounds\<close>). It is found from the bit lengths of
  numerator and denominator, which fix it up to one.
\<close>

definition ilog2 :: "rat \<Rightarrow> int" where
  "ilog2 a =
     (let k = bitlen (fst (quotient_of a)) - bitlen (snd (quotient_of a))
      in if pow2 k \<le> a then k else k - 1)"

text \<open>
  The spacing of the doubles around a positive \<open>a\<close>: 52 binary places below its
  exponent, and \<open>2\<^sup>-\<^sup>1\<^sup>0\<^sup>7\<^sup>4\<close> in the subnormal range (exponents below \<open>- 1022\<close>).
\<close>

definition ulp :: "rat \<Rightarrow> rat" where
  "ulp a = pow2 (max (ilog2 a) (- 1022) - 52)"

text \<open>Rounding to the nearest integer, a tie going to the even one.\<close>

definition round_half_even :: "rat \<Rightarrow> int" where
  "round_half_even x =
     (let f = \<lfloor>x\<rfloor>; r = x - of_int f
      in if r < 1 / 2 then f else if 1 / 2 < r then f + 1 else if even f then f else f + 1)"

text \<open>
  The double an exact value is rounded to (round to nearest, ties to even, the default
  and only rounding mode of JavaScript): the nearest multiple of the spacing, and an
  infinity when that reaches \<open>2\<^sup>1\<^sup>0\<^sup>2\<^sup>4\<close>, that is when its exponent reaches 1024
  (lemma \<open>ilog2_ge_iff\<close>; a result of zero has no exponent, and \<open>ilog2 0\<close> is \<open>- 2\<close>).
\<close>

definition round_double :: "rat \<Rightarrow> jsnum" where
  "round_double q =
     (if q = 0 then Fin 0
      else
        (let a = \<bar>q\<bar>;
             r = of_int (round_half_even (a / ulp a)) * ulp a
         in if 1024 \<le> ilog2 r then (if 0 < q then PosInfinity else NegInfinity)
            else Fin (if 0 < q then r else - r)))"

text \<open>
  A rational is a double when it is zero, or below \<open>2\<^sup>1\<^sup>0\<^sup>2\<^sup>4\<close> in size and a whole
  multiple of the spacing at its exponent.
\<close>

definition is_double :: "rat \<Rightarrow> bool" where
  "is_double q \<longleftrightarrow>
     q = 0 \<or> (ilog2 \<bar>q\<bar> < 1024 \<and> of_int \<lfloor>\<bar>q\<bar> / ulp \<bar>q\<bar>\<rfloor> = \<bar>q\<bar> / ulp \<bar>q\<bar>)"

text \<open>
  \<^verbatim>\<open>balance + amount\<close>: the exact sum, rounded once; an infinite balance stays as it is.
\<close>

fun js_add :: "jsnum \<Rightarrow> rat \<Rightarrow> jsnum" where
  "js_add (Fin x) a = round_double (x + a)"
| "js_add PosInfinity a = PosInfinity"
| "js_add NegInfinity a = NegInfinity"

text \<open>\<^verbatim>\<open>balance < amount\<close>\<close>

fun js_lt :: "jsnum \<Rightarrow> rat \<Rightarrow> bool" where
  "js_lt (Fin x) a = (x < a)"
| "js_lt PosInfinity a = False"
| "js_lt NegInfinity a = True"

section \<open>Data model (shared/schema.ts)\<close>

text \<open>
  The three tables of \<^verbatim>\<open>shared/schema.ts\<close>. An \<^verbatim>\<open>Insert*\<close> type is the row without the
  columns the storage assigns (the id, the timestamps); the stored row extends it, as
  \<^verbatim>\<open>{ ...data, id }\<close> does in \<^verbatim>\<open>server/storage.ts\<close>.

  Ids are JavaScript numbers that the storage issues from counters starting at 1; they
  are integers here. Timestamps are \<^verbatim>\<open>Date.getTime()\<close> values (milliseconds), integers
  too. The schema declares \<^verbatim>\<open>balance\<close> and \<^verbatim>\<open>amount\<close> as \<^verbatim>\<open>decimal(10, 2)\<close>; the
  in-memory storage holds them as JavaScript numbers, and
  \<^verbatim>\<open>parseFloat(balance.toString())\<close> gives back the number it is applied to.
\<close>

record insertUser =
  firstName :: string
  lastName :: string
  email :: string
  password :: string
  phone :: "string option"
  address :: "string option"

record user = insertUser +
  u_id :: int

record insertAccount =
  acc_userId :: int
  acc_type :: string
  accountNumber :: string
  balance :: jsnum

record account = insertAccount +
  acc_id :: int
  createdAt :: int

record insertTransaction =
  tx_userId :: int
  accountId :: int
  tx_type :: string
  amount :: rat
  description :: string
  toAccountId :: "int option"

record transaction = insertTransaction +
  tx_id :: int
  date :: int

text \<open>
  \<^verbatim>\<open>Partial<User>\<close>, the argument of \<^verbatim>\<open>updateUser\<close>: a field that is absent (\<open>None\<close>)
  is left as it is by the spread \<^verbatim>\<open>{ ...user, ...userData }\<close>. The fields are those the
  two callers can pass (the profile form and the password change).
\<close>

record partialUser =
  p_firstName :: "string option"
  p_lastName :: "string option"
  p_email :: "string option"
  p_password :: "string option"
  p_phone :: "string option"
  p_address :: "string option"

section \<open>JavaScript Map, in insertion order\<close>

text \<open>
  A \<^verbatim>\<open>Map<number, V>\<close> is an association list in insertion order: \<^verbatim>\<open>set\<close> on a key
  that is present replaces the value where it stands, \<^verbatim>\<open>set\<close> on a new key appends,
  and \<^verbatim>\<open>values()\<close> iterates in that order.
\<close>

type_synonym 'v jsmap = "(int \<times> 'v) list"

definition map_get :: "'v jsmap \<Rightarrow> int \<Rightarrow> 'v option" where
  "map_get m k = map_of m k"

fun map_set :: "'v jsmap \<Rightarrow> int \<Rightarrow> 'v \<Rightarrow> 'v jsmap" where
  "map_set [] k v = [(k, v)]"
| "map_set ((k', v') # m) k v =
     (if k' = k then (k, v) # m else (k', v') # map_set m k v)"

definition map_values :: "'v jsmap \<Rightarrow> 'v list" where
  "map_values m = map snd m"

section \<open>MemStorage (server/storage.ts)\<close>

record storage =
  users :: "user jsmap"
  accounts :: "account jsmap"
  transactions :: "transaction jsmap"
  userIdCounter :: int
  accountIdCounter :: int
  transactionIdCounter :: int

text \<open>The constructor: empty maps, counters at 1.\<close>

definition newStorage :: storage where
  "newStorage =
     \<lparr>users = [], accounts = [], transactions = [],
      userIdCounter = 1, accountIdCounter = 1, transactionIdCounter = 1\<rparr>"

text \<open>
  \<^verbatim>\<open>createAccount\<close>. The clock (\<^verbatim>\<open>new Date()\<close>) is the argument \<open>now\<close>.
\<close>

definition createAccount :: "storage \<Rightarrow> int \<Rightarrow> insertAccount \<Rightarrow> account \<times> storage" where
  "createAccount st now accountData =
     (let i = accountIdCounter st;
          a = \<lparr>acc_userId = acc_userId accountData, acc_type = acc_type accountData,
               accountNumber = accountNumber accountData, balance = balance accountData,
               acc_id = i, createdAt = now\<rparr>
      in (a, st\<lparr>accountIdCounter := i + 1, accounts := map_set (accounts st) i a\<rparr>))"

text \<open>
  \<^verbatim>\<open>createUser\<close> stores the user and opens the three default accounts (the calls to
  \<^verbatim>\<open>createAccount\<close> are not awaited, but its body has no \<^verbatim>\<open>await\<close> and so runs to its
  end at the call). The random account numbers (\<^verbatim>\<open>generateAccountNumber\<close>) and the
  clock of each \<^verbatim>\<open>createAccount\<close> are arguments: \<open>n1, t1\<close> for the checking account,
  \<open>n2, t2\<close> for savings, \<open>n3, t3\<close> for credit.
\<close>

definition createUser ::
  "storage \<Rightarrow> insertUser \<Rightarrow> string \<Rightarrow> int \<Rightarrow> string \<Rightarrow> int \<Rightarrow> string \<Rightarrow> int \<Rightarrow> user \<times> storage" where
  "createUser st userData n1 t1 n2 t2 n3 t3 =
     (let i = userIdCounter st;
          u = \<lparr>firstName = firstName userData, lastName = lastName userData,
               email = email userData, password = password userData,
               phone = phone userData, address = address userData, u_id = i\<rparr>;
          st0 = st\<lparr>userIdCounter := i + 1, users := map_set (users st) i u\<rparr>;
          st1 = snd (createAccount st0 t1
                  \<lparr>acc_userId = i, acc_type = ''checking'', accountNumber = n1, balance = Fin 2500\<rparr>);
          st2 = snd (createAccount st1 t2
                  \<lparr>acc_userId = i, acc_type = ''savings'', accountNumber = n2, balance = Fin 10000\<rparr>);
          st3 = snd (createAccount st2 t3
                  \<lparr>acc_userId = i, acc_type = ''credit'', accountNumber = n3, balance = Fin 0\<rparr>)
      in (u, st3))"

definition getUserById :: "storage \<Rightarrow> int \<Rightarrow> user option" where
  "getUserById st i = map_get (users st) i"

text \<open>\<^verbatim>\<open>getUserByEmail\<close>: the first user, in iteration order, with that email.\<close>

definition getUserByEmail :: "storage \<Rightarrow> string \<Rightarrow> user option" where
  "getUserByEmail st e = find (\<lambda>u. email u = e) (map_values (users st))"

definition spread :: "user \<Rightarrow> partialUser \<Rightarrow> user" where
  "spread u d =
     u\<lparr>firstName := (case p_firstName d of None \<Rightarrow> firstName u | Some x \<Rightarrow> x),
       lastName := (case p_lastName d of None \<Rightarrow> lastName u | Some x \<Rightarrow> x),
       email := (case p_email d of None \<Rightarrow> email u | Some x \<Rightarrow> x),
       password := (case p_password d of None \<Rightarrow> password u | Some x \<Rightarrow> x),
       phone := (case p_phone d of None \<Rightarrow> phone u | Some x \<Rightarrow> Some x),
       address := (case p_address d of None \<Rightarrow> address u | Some x \<Rightarrow> Some x)\<rparr>"

definition updateUser :: "storage \<Rightarrow> int \<Rightarrow> partialUser \<Rightarrow> user option \<times> storage" where
  "updateUser st i userData =
     (case map_get (users st) i of
        None \<Rightarrow> (None, st)
      | Some u \<Rightarrow>
          (let updatedUser = spread u userData
           in (Some updatedUser, st\<lparr>users := map_set (users st) i updatedUser\<rparr>)))"

definition validateUserPassword :: "storage \<Rightarrow> string \<Rightarrow> string \<Rightarrow> user option" where
  "validateUserPassword st e pw =
     (case getUserByEmail st e of
        None \<Rightarrow> None
      | Some u \<Rightarrow> if password u = pw then Some u else None)"

definition getAccountById :: "storage \<Rightarrow> int \<Rightarrow> account option" where
  "getAccountById st i = map_get (accounts st) i"

definition getAccountsByUserId :: "storage \<Rightarrow> int \<Rightarrow> account list" where
  "getAccountsByUserId st uid = filter (\<lambda>a. acc_userId a = uid) (map_values (accounts st))"

definition updateAccountBalance :: "storage \<Rightarrow> int \<Rightarrow> rat \<Rightarrow> account option \<times> storage" where
  "updateAccountBalance st i amt =
     (case map_get (accounts st) i of
        None \<Rightarrow> (None, st)
      | Some a \<Rightarrow>
          (let updatedAccount = a\<lparr>balance := js_add (balance a) amt\<rparr>
           in (Some updatedAccount, st\<lparr>accounts := map_set (accounts st) i updatedAccount\<rparr>)))"

text \<open>\<^verbatim>\<open>createTransaction\<close>, with the clock as the argument \<open>now\<close>.\<close>

definition createTransaction ::
  "storage \<Rightarrow> int \<Rightarrow> insertTransaction \<Rightarrow> transaction \<times> storage" where
  "createTransaction st now transactionData =
     (let i = transactionIdCounter st;
          t = \<lparr>tx_userId = tx_userId transactionData, accountId = accountId transactionData,
               tx_type = tx_type transactionData, amount = amount transactionData,
               description = description transactionData,
               toAccountId = toAccountId transactionData, tx_id = i, date = now\<rparr>
      in (t, st\<lparr>transactionIdCounter := i + 1, transactions := map_set (transactions st) i t\<rparr>))"

definition getTransactionById :: "storage \<Rightarrow> int \<Rightarrow> transaction option" where
  "getTransactionById st i = map_get (transactions st) i"

text \<open>
  \<^verbatim>\<open>Array.prototype.sort(comparefn)\<close> is stable (ECMAScript 2019): elements the
  comparator calls equal keep their order. It is modelled as insertion sort: \<open>x\<close> goes
  in front of the first element \<open>y\<close> with \<open>cmp x y \<le> 0\<close>.
\<close>

fun js_insert :: "('a \<Rightarrow> 'a \<Rightarrow> int) \<Rightarrow> 'a \<Rightarrow> 'a list \<Rightarrow> 'a list" where
  "js_insert cmp x [] = [x]"
| "js_insert cmp x (y # ys) = (if cmp x y \<le> 0 then x # y # ys else y # js_insert cmp x ys)"

definition js_sort :: "('a \<Rightarrow> 'a \<Rightarrow> int) \<Rightarrow> 'a list \<Rightarrow> 'a list" where
  "js_sort cmp xs = foldr (js_insert cmp) xs []"

text \<open>The comparator \<^verbatim>\<open>(a, b) => b.date.getTime() - a.date.getTime()\<close>.\<close>

definition byDateDesc :: "transaction \<Rightarrow> transaction \<Rightarrow> int" where
  "byDateDesc a b = date b - date a"

definition getTransactionsByUserId :: "storage \<Rightarrow> int \<Rightarrow> transaction list" where
  "getTransactionsByUserId st uid =
     js_sort byDateDesc (filter (\<lambda>t. tx_userId t = uid) (map_values (transactions st)))"

definition getTransactionsByAccountId :: "storage \<Rightarrow> int \<Rightarrow> transaction list" where
  "getTransactionsByAccountId st aid =
     js_sort byDateDesc (filter (\<lambda>t. accountId t = aid) (map_values (transactions st)))"

section \<open>The route handlers (server/routes.ts)\<close>

text \<open>
  A handler is modelled from the point where its zod schema has parsed the body and
  \<^verbatim>\<open>isAuthenticated\<close> has let the request through: its arguments are the parsed fields
  (the amount is the number \<^verbatim>\<open>parseFloat\<close> returns) and \<open>uid\<close>, the id of the session's
  user. The result is the response, an error being one of the handler's early returns,
  and the storage after the request. The session itself is not part of the model, and a
  handler runs from its first line to its response with no other request in between.
\<close>

datatype error =
    UserExists
  | InvalidCredentials
  | PermissionDenied
  | DestinationNotFound
  | InsufficientFunds
  | UserNotFound
  | WrongPassword

text \<open>The HTTP status each early return sends.\<close>

fun http_status :: "error \<Rightarrow> nat" where
  "http_status UserExists = 400"
| "http_status InvalidCredentials = 401"
| "http_status PermissionDenied = 403"
| "http_status DestinationNotFound = 404"
| "http_status InsufficientFunds = 400"
| "http_status UserNotFound = 404"
| "http_status WrongPassword = 400"

text \<open>\<^verbatim>\<open>const { password, ...userWithoutPassword } = user\<close>\<close>

record userWithoutPassword =
  r_firstName :: string
  r_lastName :: string
  r_email :: string
  r_phone :: "string option"
  r_address :: "string option"
  r_id :: int

definition withoutPassword :: "user \<Rightarrow> userWithoutPassword" where
  "withoutPassword u =
     \<lparr>r_firstName = firstName u, r_lastName = lastName u, r_email = email u,
      r_phone = phone u, r_address = address u, r_id = u_id u\<rparr>"

text \<open>POST /api/auth/register\<close>

definition register ::
  "storage \<Rightarrow> insertUser \<Rightarrow> string \<Rightarrow> int \<Rightarrow> string \<Rightarrow> int \<Rightarrow> string \<Rightarrow> int
     \<Rightarrow> (error + userWithoutPassword) \<times> storage" where
  "register st userData n1 t1 n2 t2 n3 t3 =
     (case getUserByEmail st (email userData) of
        Some existingUser \<Rightarrow> (Inl UserExists, st)
      | None \<Rightarrow>
          (let (u, st') = createUser st userData n1 t1 n2 t2 n3 t3
           in (Inr (withoutPassword u), st')))"

text \<open>POST /api/auth/login\<close>

definition login :: "storage \<Rightarrow> string \<Rightarrow> string \<Rightarrow> error + userWithoutPassword" where
  "login st e pw =
     (case validateUserPassword st e pw of
        None \<Rightarrow> Inl InvalidCredentials
      | Some u \<Rightarrow> Inr (withoutPassword u))"

text \<open>
  POST /api/transactions/transfer. \<open>now1\<close> and \<open>now2\<close> are the clock at the two
  \<^verbatim>\<open>createTransaction\<close> calls.
\<close>

definition transfer ::
  "storage \<Rightarrow> int \<Rightarrow> int \<Rightarrow> int \<Rightarrow> rat \<Rightarrow> string \<Rightarrow> int \<Rightarrow> int
     \<Rightarrow> (error + transaction) \<times> storage" where
  "transfer st uid fromId toId amt descr now1 now2 =
     (let fromAccount = getAccountById st fromId;
          toAccount = getAccountById st toId
      in case fromAccount of
           None \<Rightarrow> (Inl PermissionDenied, st)
         | Some fa \<Rightarrow>
             if acc_userId fa \<noteq> uid then (Inl PermissionDenied, st)
             else (case toAccount of
                 None \<Rightarrow> (Inl DestinationNotFound, st)
               | Some ta \<Rightarrow>
                   if js_lt (balance fa) amt then (Inl InsufficientFunds, st)
                   else
                     (let st1 = snd (updateAccountBalance st (acc_id fa) (- amt));
                          st2 = snd (updateAccountBalance st1 (acc_id ta) amt);
                          (fromTransaction, st3) = createTransaction st2 now1
                             \<lparr>tx_userId = uid, accountId = acc_id fa, tx_type = ''transfer'',
                              amount = - amt, description = descr,
                              toAccountId = Some (acc_id ta)\<rparr>;
                          st4 = snd (createTransaction st3 now2
                             \<lparr>tx_userId = acc_userId ta, accountId = acc_id ta,
                              tx_type = ''transfer'', amount = amt,
                              description = ''Transfer from account '' @ accountNumber fa,
                              toAccountId = None\<rparr>)
                      in (Inr fromTransaction, st4))))"

text \<open>POST /api/transactions/deposit\<close>

definition deposit ::
  "storage \<Rightarrow> int \<Rightarrow> int \<Rightarrow> rat \<Rightarrow> string \<Rightarrow> int \<Rightarrow> (error + transaction) \<times> storage" where
  "deposit st uid aid amt descr now =
     (case getAccountById st aid of
        None \<Rightarrow> (Inl PermissionDenied, st)
      | Some a \<Rightarrow>
          if acc_userId a \<noteq> uid then (Inl PermissionDenied, st)
          else
            (let st1 = snd (updateAccountBalance st (acc_id a) amt);
                 (t, st2) = createTransaction st1 now
                    \<lparr>tx_userId = uid, accountId = acc_id a, tx_type = ''deposit'',
                     amount = amt, description = descr, toAccountId = None\<rparr>
             in (Inr t, st2)))"

text \<open>POST /api/transactions/withdrawal\<close>

definition withdrawal ::
  "storage \<Rightarrow> int \<Rightarrow> int \<Rightarrow> rat \<Rightarrow> string \<Rightarrow> int \<Rightarrow> (error + transaction) \<times> storage" where
  "withdrawal st uid aid amt descr now =
     (case getAccountById st aid of
        None \<Rightarrow> (Inl PermissionDenied, st)
      | Some a \<Rightarrow>
          if acc_userId a \<noteq> uid then (Inl PermissionDenied, st)
          else if acc_type a \<noteq> ''credit'' \<and> js_lt (balance a) amt then (Inl InsufficientFunds, st)
          else
            (let st1 = snd (updateAccountBalance st (acc_id a) (- amt));
                 (t, st2) = createTransaction st1 now
                    \<lparr>tx_userId = uid, accountId = acc_id a, tx_type = ''withdrawal'',
                     amount = - amt, description = descr, toAccountId = None\<rparr>
             in (Inr t, st2)))"

text \<open>
  PUT /api/profile. The parsed body has the three required fields and, when the request
  carried them, \<^verbatim>\<open>phone\<close> and \<^verbatim>\<open>address\<close>; it is passed to \<^verbatim>\<open>updateUser\<close> as it is.
\<close>

definition updateProfile ::
  "storage \<Rightarrow> int \<Rightarrow> string \<Rightarrow> string \<Rightarrow> string \<Rightarrow> string option \<Rightarrow> string option
     \<Rightarrow> (error + userWithoutPassword) \<times> storage" where
  "updateProfile st uid fname lname mail ph addr =
     (case updateUser st uid
        \<lparr>p_firstName = Some fname, p_lastName = Some lname, p_email = Some mail,
         p_password = None, p_phone = ph, p_address = addr\<rparr> of
        (None, st') \<Rightarrow> (Inl UserNotFound, st')
      | (Some updatedUser, st') \<Rightarrow> (Inr (withoutPassword updatedUser), st'))"

text \<open>PUT /api/profile/password\<close>

definition changePassword ::
  "storage \<Rightarrow> int \<Rightarrow> string \<Rightarrow> string \<Rightarrow> (error + unit) \<times> storage" where
  "changePassword st uid currentPassword newPassword =
     (case getUserById st uid of
        None \<Rightarrow> (Inl UserNotFound, st)
      | Some u \<Rightarrow>
          if password u \<noteq> currentPassword then (Inl WrongPassword, st)
          else
            (Inr (), snd (updateUser st uid
               \<lparr>p_firstName = None, p_lastName = None, p_email = None,
                p_password = Some newPassword, p_phone = None, p_address = None\<rparr>)))"

section \<open>Requests and reachable states\<close>

text \<open>
  The requests that change the storage, each with the arguments of its handler, and the
  storage a request leaves behind.
\<close>

datatype request =
    Register insertUser string int string int string int
  | Transfer int int int rat string int int
  | Deposit int int rat string int
  | Withdrawal int int rat string int
  | UpdateProfile int string string string "string option" "string option"
  | ChangePassword int string string

fun handle :: "storage \<Rightarrow> request \<Rightarrow> storage" where
  "handle st (Register d n1 t1 n2 t2 n3 t3) = snd (register st d n1 t1 n2 t2 n3 t3)"
| "handle st (Transfer uid f t amt descr now1 now2) = snd (transfer st uid f t amt descr now1 now2)"
| "handle st (Deposit uid a amt descr now) = snd (deposit st uid a amt descr now)"
| "handle st (Withdrawal uid a amt descr now) = snd (withdrawal st uid a amt descr now)"
| "handle st (UpdateProfile uid fname lname mail ph addr) = snd (updateProfile st uid fname lname mail ph addr)"
| "handle st (ChangePassword uid cur new) = snd (changePassword st uid cur new)"

text \<open>
  What the server can be in: the fresh storage, and the storage after any request.
  Neither the schemas' checks on a body nor the session are imposed (any amount and any
  caller id may occur), so this is a superset of the states the routes can produce.
\<close>

inductive reachable :: "storage \<Rightarrow> bool" where
  reachable_new: "reachable newStorage"
| reachable_handle: "reachable st \<Longrightarrow> reachable (handle st r)"

text \<open>
  The bookkeeping the counters keep up: every entry is stored under its own id, and every
  key is below the counter that issues the next one.
\<close>

definition storage_inv :: "storage \<Rightarrow> bool" where
  "storage_inv st \<longleftrightarrow>
     (\<forall>(k, u) \<in> set (users st). u_id u = k \<and> k < userIdCounter st) \<and>
     (\<forall>(k, a) \<in> set (accounts st). acc_id a = k \<and> k < accountIdCounter st) \<and>
     (\<forall>(k, t) \<in> set (transactions st). tx_id t = k \<and> k < transactionIdCounter st)"

section \<open>Deposits running at the same time\<close>

text \<open>
  Node runs one handler at a time, but only up to its next \<^verbatim>\<open>await\<close>; there another
  request's handler may run. The storage's methods contain no \<^verbatim>\<open>await\<close>, so each of
  them runs to its end at the call. The deposit handler therefore touches the storage in
  three uninterrupted steps: it reads the account (\<^verbatim>\<open>getAccountById\<close>); after the
  ownership check on what it read, it calls \<^verbatim>\<open>updateAccountBalance\<close>, which looks the
  account up again and writes the new balance; it calls \<^verbatim>\<open>createTransaction\<close> and
  responds. A deposit in flight is its request and where it stands.
\<close>

datatype deposit_pc =
    Start
  | GotAccount "account option"
  | Updated account
  | Responded "error + transaction"

record deposit_task =
  d_uid :: int
  d_accountId :: int
  d_amount :: rat
  d_description :: string
  d_now :: int
  d_pc :: deposit_pc

fun deposit_pc_step :: "deposit_task \<Rightarrow> storage \<Rightarrow> deposit_pc \<Rightarrow> deposit_pc \<times> storage" where
  "deposit_pc_step h st Start = (GotAccount (getAccountById st (d_accountId h)), st)"
| "deposit_pc_step h st (GotAccount None) = (Responded (Inl PermissionDenied), st)"
| "deposit_pc_step h st (GotAccount (Some a)) =
     (if acc_userId a \<noteq> d_uid h then (Responded (Inl PermissionDenied), st)
      else (Updated a, snd (updateAccountBalance st (acc_id a) (d_amount h))))"
| "deposit_pc_step h st (Updated a) =
     (let (t, st') = createTransaction st (d_now h)
            \<lparr>tx_userId = d_uid h, accountId = acc_id a, tx_type = ''deposit'',
             amount = d_amount h, description = d_description h, toAccountId = None\<rparr>
      in (Responded (Inr t), st'))"
| "deposit_pc_step h st (Responded r) = (Responded r, st)"

definition deposit_step :: "storage \<Rightarrow> deposit_task \<Rightarrow> deposit_task \<times> storage" where
  "deposit_step st h =
     (let (pc, st') = deposit_pc_step h st (d_pc h) in (h\<lparr>d_pc := pc\<rparr>, st'))"


text \<open>
  A schedule names, step by step, the deposit that runs next (by its position in the
  list of deposits in flight); a position that names none is skipped, and a deposit that
  has responded does nothing more.
\<close>

fun run :: "nat list \<Rightarrow> deposit_task list \<times> storage \<Rightarrow> deposit_task list \<times> storage" where
  "run [] c = c"
| "run (i # sched) (hs, st) =
     (if i < length hs
      then (let (h, st') = deposit_step st (hs ! i) in run sched (hs[i := h], st'))
      else run sched (hs, st))"






text \<open>A deposit request that has just arrived.\<close>

definition new_deposit :: "int \<Rightarrow> int \<Rightarrow> rat \<Rightarrow> string \<Rightarrow> int \<Rightarrow> deposit_task" where
  "new_deposit uid aid amt descr now =
     \<lparr>d_uid = uid, d_accountId = aid, d_amount = amt, d_description = descr, d_now = now,
      d_pc = Start\<rparr>"

section \<open>A worked scenario\<close>

text \<open>
  Concrete states for the examples below. Alice registers and gets accounts 1 (checking,
  2500), 2 (savings, 10000) and 3 (credit, 0); Bob registers after her (accounts 4 to 6);
  Bob then saves a profile carrying Alice's email; Alice moves 500 from checking to
  savings, both ledger entries written in the same millisecond. In other courses of
  events Alice deposits "0.10" and then "0.20" on her credit account (\<open>st_cents\<close>),
  withdraws "0.10" from it (\<open>st_owed\<close>), or moves "0.10" from checking to savings
  (\<open>st_tip\<close>).

  \<open>parsed_0_10\<close> and \<open>parsed_0_20\<close> are what \<^verbatim>\<open>parseFloat\<close> returns for the amounts
  "0.10" and "0.20", the doubles nearest to one and two tenths (lemma \<open>parsed_cents\<close>).
\<close>

definition parsed_0_10 :: rat where
  "parsed_0_10 = 3602879701896397 / 36028797018963968"

definition parsed_0_20 :: rat where
  "parsed_0_20 = 3602879701896397 / 18014398509481984"

definition alice :: insertUser where
  "alice = \<lparr>firstName = ''Alice'', lastName = ''Archer'', email = ''alice@example.com'',
            password = ''alicepass1'', phone = None, address = None\<rparr>"

definition bob :: insertUser where
  "bob = \<lparr>firstName = ''Bob'', lastName = ''Baker'', email = ''bob@example.com'',
          password = ''bobspass99'', phone = None, address = None\<rparr>"

definition st_alice :: storage where
  "st_alice = handle newStorage (Register alice ''9F3A1C07'' 100 ''5B2E8D41'' 100 ''C4D0A7E2'' 100)"

definition st_two :: storage where
  "st_two = handle st_alice (Register bob ''11AA22BB'' 150 ''33CC44DD'' 150 ''55EE66FF'' 150)"

definition st_dup :: storage where
  "st_dup = handle st_two (UpdateProfile 2 ''Bob'' ''Baker'' ''alice@example.com'' None None)"

definition st_transfer :: storage where
  "st_transfer = handle st_alice (Transfer 1 1 2 500 ''rent'' 200 200)"

definition st_cents :: storage where
  "st_cents = handle (handle st_alice (Deposit 1 3 parsed_0_10 ''coins'' 300))
                (Deposit 1 3 parsed_0_20 ''coins'' 301)"





section \<open>Basic facts\<close>

subsection \<open>Rounding\<close>

lemma pow2_powi: "pow2 i = 2 powi i"
  by (simp add: pow2_def power_int_def inverse_eq_divide power_one_over)

lemma pow2_pos: "0 < pow2 i"
  by (simp add: pow2_powi)

lemma pow2_add: "pow2 (i + j) = pow2 i * pow2 j"
  by (simp add: pow2_powi power_int_add)

lemma pow2_Suc: "pow2 (i + 1) = 2 * pow2 i"
  by (simp add: pow2_add) (simp add: pow2_def)

lemma pow2_nat: "0 \<le> i \<Longrightarrow> pow2 i = 2 ^ nat i"
  by (simp add: pow2_def)

lemma round_half_even_int: "round_half_even (of_int k) = k"
  by (simp add: round_half_even_def)


lemma ilog2_bounds:
  assumes "0 < a"
  shows "pow2 (ilog2 a) \<le> a \<and> a < pow2 (ilog2 a + 1)"
proof -
  obtain n d where nd: "quotient_of a = (n, d)" by (cases "quotient_of a")
  then have d: "0 < d" by (rule quotient_of_denom_pos)
  have a: "a = of_int n / of_int d" using nd by (rule quotient_of_div)
  with assms d have n: "0 < n" by (simp add: zero_less_divide_iff)
  define bn bd where "bn = bitlen n" and "bd = bitlen d"
  have bn1: "1 \<le> bn" and bd1: "1 \<le> bd"
    using n d bitlen_eq_zero_iff [of n] bitlen_eq_zero_iff [of d] bitlen_nonneg [of n]
      bitlen_nonneg [of d] by (auto simp: bn_def bd_def)
  have int_bounds: "2 ^ nat (bitlen x - 1) \<le> rat_of_int x \<and> rat_of_int x < 2 ^ nat (bitlen x)"
    if "0 < x" for x
  proof -
    from bitlen_bounds [OF that]
    have "rat_of_int (2 ^ nat (bitlen x - 1)) \<le> rat_of_int x"
      "rat_of_int x < rat_of_int (2 ^ nat (bitlen x))"
      by (simp_all only: of_int_le_iff of_int_less_iff)
    then show ?thesis by simp
  qed
  have nb: "pow2 (bn - 1) \<le> of_int n" "of_int n < pow2 bn"
    using int_bounds [OF n] bn1 by (simp_all add: pow2_nat bn_def)
  have db: "pow2 (bd - 1) \<le> of_int d" "of_int d < pow2 bd"
    using int_bounds [OF d] bd1 by (simp_all add: pow2_nat bd_def)
  have dpos: "(0::rat) < of_int d" using d by simp
  have upper: "a < pow2 (bn - bd + 1)"
  proof -
    have "of_int n < pow2 (bn - bd + 1) * pow2 (bd - 1)"
      using nb(2) by (simp flip: pow2_add)
    also have "\<dots> \<le> pow2 (bn - bd + 1) * of_int d"
      using db(1) pow2_pos [of "bn - bd + 1"] by simp
    finally show ?thesis using dpos by (simp add: a pos_divide_less_eq)
  qed
  have lower: "pow2 (bn - bd - 1) \<le> a"
  proof -
    have "pow2 (bn - bd - 1) * of_int d \<le> pow2 (bn - bd - 1) * pow2 bd"
      using db(2) pow2_pos [of "bn - bd - 1"] by simp
    also have "\<dots> = pow2 (bn - 1)" by (simp flip: pow2_add)
    also have "\<dots> \<le> of_int n" by (rule nb(1))
    finally show ?thesis using dpos by (simp add: a pos_le_divide_eq)
  qed
  have il: "ilog2 a = (if pow2 (bn - bd) \<le> a then bn - bd else bn - bd - 1)"
    by (simp add: ilog2_def nd bn_def bd_def Let_def)
  show ?thesis
  proof (cases "pow2 (bn - bd) \<le> a")
    case True
    then show ?thesis using upper by (simp add: il)
  next
    case False
    then show ?thesis using lower by (simp add: il)
  qed
qed

lemma pow2_mono: "i \<le> j \<Longrightarrow> pow2 i \<le> pow2 j"
  by (simp add: pow2_powi power_int_increasing)

lemma ilog2_ge_iff:
  assumes "0 < a"
  shows "e \<le> ilog2 a \<longleftrightarrow> pow2 e \<le> a"
proof
  assume "e \<le> ilog2 a"
  then have "pow2 e \<le> pow2 (ilog2 a)" by (rule pow2_mono)
  then show "pow2 e \<le> a" using ilog2_bounds [OF assms] by simp
next
  assume le: "pow2 e \<le> a"
  show "e \<le> ilog2 a"
  proof (rule ccontr)
    assume "\<not> e \<le> ilog2 a"
    then have "ilog2 a + 1 \<le> e" by simp
    then have "pow2 (ilog2 a + 1) \<le> pow2 e" by (rule pow2_mono)
    then show False using ilog2_bounds [OF assms] le by simp
  qed
qed

lemma ilog2_eq:
  assumes "pow2 e \<le> a" "a < pow2 (e + 1)"
  shows "ilog2 a = e"
proof -
  have pos: "0 < a" using assms(1) pow2_pos [of e] by simp
  have "e \<le> ilog2 a" using assms(1) by (simp add: ilog2_ge_iff [OF pos])
  moreover have "\<not> e + 1 \<le> ilog2 a" using assms(2) by (simp add: ilog2_ge_iff [OF pos])
  ultimately show ?thesis by simp
qed

lemma ilog2_zero: "ilog2 0 = - 2"
  by code_simp

lemma ilog2_pow2: "ilog2 (pow2 e) = e"
  by (rule ilog2_eq) (simp_all add: pow2_Suc pow2_pos)

text \<open>Rounding can overflow: \<open>2\<^sup>1\<^sup>0\<^sup>2\<^sup>4\<close> and beyond round to an infinity.\<close>

lemma round_double_overflow: "round_double (pow2 1024) = PosInfinity"
proof -
  have pos: "0 < pow2 1024" by (rule pow2_pos)
  have u: "ulp (pow2 1024) = pow2 972"
    by (simp add: ulp_def ilog2_pow2)
  have split: "pow2 1024 = pow2 52 * pow2 972"
    by (simp flip: pow2_add)
  have p52: "pow2 52 = rat_of_int (2 ^ 52)"
    by (simp add: pow2_nat)
  have q: "pow2 1024 / pow2 972 = rat_of_int (2 ^ 52)"
    unfolding split p52 using pow2_pos [of 972] by simp
  have "round_half_even (pow2 1024 / pow2 972) = 2 ^ 52"
    unfolding q by (rule round_half_even_int)
  then have "of_int (round_half_even (pow2 1024 / ulp (pow2 1024))) * ulp (pow2 1024) =
      rat_of_int (2 ^ 52) * pow2 972"
    by (simp only: u)
  also have "\<dots> = pow2 1024"
    by (simp only: split p52)
  finally have "of_int (round_half_even (pow2 1024 / ulp (pow2 1024))) * ulp (pow2 1024) =
      pow2 1024" .
  then show ?thesis
    using pos by (simp add: round_double_def Let_def ilog2_pow2)
qed

text \<open>The amounts "0.10" and "0.20" as \<^verbatim>\<open>parseFloat\<close> returns them.\<close>

lemma parsed_cents:
  "round_double (10 / 100) = Fin parsed_0_10"
  "round_double (20 / 100) = Fin parsed_0_20"
  "is_double parsed_0_10" "is_double parsed_0_20"
  by code_simp+


text \<open>The sums of the worked scenario.\<close>

lemma scenario_sums:
  "js_add (Fin 2500) (- 500) = Fin 2000"
  "js_add (Fin 10000) 500 = Fin 10500"
  "js_add (Fin 0) (- 3000) = Fin (- 3000)"
  "js_add (Fin 0) (- 100) = Fin (- 100)"
  "js_add (Fin 2500) 50 = Fin 2550"
  by code_simp+

lemma cent_sums:
  "js_add (Fin 2500) (- parsed_0_10) = Fin (5497338236554445 / 2199023255552)"
  "js_add (Fin 10000) parsed_0_10 = Fin (5497613114461389 / 549755813888)"
  "js_add (Fin 0) parsed_0_10 = Fin parsed_0_10"
  "js_add (Fin parsed_0_10) parsed_0_10 = Fin parsed_0_20"
  "js_add (Fin parsed_0_10) parsed_0_20 = Fin (1351079888211149 / 4503599627370496)"
  "js_add (Fin parsed_0_20) parsed_0_10 = Fin (1351079888211149 / 4503599627370496)"
  "js_add (Fin 0) (- parsed_0_10) = Fin (- parsed_0_10)"
  "js_add (Fin (- parsed_0_10)) (- parsed_0_20) = Fin (- (1351079888211149 / 4503599627370496))"
  "round_double (30 / 100) = Fin (5404319552844595 / 18014398509481984)"
  by code_simp+



lemmas eval_defs = register_def getUserByEmail_def newStorage_def createUser_def
  createAccount_def Let_def map_values_def map_get_def getAccountById_def getUserById_def
  updateAccountBalance_def createTransaction_def transfer_def deposit_def withdrawal_def
  updateProfile_def updateUser_def spread_def changePassword_def validateUserPassword_def
  login_def withoutPassword_def

subsection \<open>The map\<close>



lemma map_set_fresh:
  "k \<notin> fst ` set m \<Longrightarrow> map_set m k v = m @ [(k, v)]"
  by (induction m) auto

lemma set_map_set_subset:
  "set (map_set m k v) \<subseteq> insert (k, v) (set m)"
  by (induction m) (auto split: if_splits)

lemma map_get_in_set:
  "map_get m k = Some v \<Longrightarrow> (k, v) \<in> set m"
  by (simp add: map_get_def map_of_SomeD)

lemma ball_map_set:
  assumes "\<forall>(k', v') \<in> set m. P k' v'" "P k v"
  shows "\<forall>(k', v') \<in> set (map_set m k v). P k' v'"
  using assms set_map_set_subset [of m k v] by auto

subsection \<open>The storage operations, field by field\<close>


lemma updateAccountBalance_other:
  "transactions (snd (updateAccountBalance st i amt)) = transactions st"
  "transactionIdCounter (snd (updateAccountBalance st i amt)) = transactionIdCounter st"
  "users (snd (updateAccountBalance st i amt)) = users st"
  by (simp_all add: updateAccountBalance_def Let_def split: option.splits)

lemma createTransaction_other:
  "accounts (snd (createTransaction st now d)) = accounts st"
  "users (snd (createTransaction st now d)) = users st"
  "transactionIdCounter (snd (createTransaction st now d)) = transactionIdCounter st + 1"
  by (simp_all add: createTransaction_def Let_def)


subsection \<open>The bookkeeping invariant holds in every reachable state\<close>

lemma storage_inv_createAccount:
  assumes "storage_inv st"
  shows "storage_inv (snd (createAccount st now d))"
proof -
  have "\<forall>(k, a) \<in> set (map_set (accounts st) (accountIdCounter st)
           \<lparr>acc_userId = acc_userId d, acc_type = acc_type d, accountNumber = accountNumber d,
            balance = balance d, acc_id = accountIdCounter st, createdAt = now\<rparr>).
          acc_id a = k \<and> k < accountIdCounter st + 1"
    using assms by (intro ball_map_set) (auto simp: storage_inv_def)
  then show ?thesis
    using assms by (simp add: storage_inv_def createAccount_def Let_def)
qed

lemma storage_inv_createTransaction:
  assumes "storage_inv st"
  shows "storage_inv (snd (createTransaction st now d))"
proof -
  have "\<forall>(k, t) \<in> set (map_set (transactions st) (transactionIdCounter st)
           \<lparr>tx_userId = tx_userId d, accountId = accountId d, tx_type = tx_type d,
            amount = amount d, description = description d, toAccountId = toAccountId d,
            tx_id = transactionIdCounter st, date = now\<rparr>).
          tx_id t = k \<and> k < transactionIdCounter st + 1"
    using assms by (intro ball_map_set) (auto simp: storage_inv_def)
  then show ?thesis
    using assms by (simp add: storage_inv_def createTransaction_def Let_def)
qed

lemma storage_inv_updateAccountBalance:
  assumes "storage_inv st"
  shows "storage_inv (snd (updateAccountBalance st i amt))"
proof (cases "map_get (accounts st) i")
  case None
  then show ?thesis using assms by (simp add: updateAccountBalance_def)
next
  case (Some a)
  then have "(i, a) \<in> set (accounts st)" by (rule map_get_in_set)
  with assms have "acc_id a = i" "i < accountIdCounter st"
    by (auto simp: storage_inv_def)
  then have "\<forall>(k, b) \<in> set (map_set (accounts st) i (a\<lparr>balance := js_add (balance a) amt\<rparr>)).
          acc_id b = k \<and> k < accountIdCounter st"
    using assms by (intro ball_map_set) (auto simp: storage_inv_def)
  then show ?thesis
    using assms Some by (simp add: storage_inv_def updateAccountBalance_def Let_def)
qed

lemma storage_inv_updateUser:
  assumes "storage_inv st"
  shows "storage_inv (snd (updateUser st i d))"
proof (cases "map_get (users st) i")
  case None
  then show ?thesis using assms by (simp add: updateUser_def)
next
  case (Some u)
  then have "(i, u) \<in> set (users st)" by (rule map_get_in_set)
  with assms have "u_id u = i" "i < userIdCounter st"
    by (auto simp: storage_inv_def)
  then have "\<forall>(k, v) \<in> set (map_set (users st) i (spread u d)).
          u_id v = k \<and> k < userIdCounter st"
    using assms by (intro ball_map_set) (auto simp: storage_inv_def spread_def)
  then show ?thesis
    using assms Some by (simp add: storage_inv_def updateUser_def Let_def)
qed

lemma storage_inv_createUser:
  assumes "storage_inv st"
  shows "storage_inv (snd (createUser st d n1 t1 n2 t2 n3 t3))"
proof -
  let ?u = "\<lparr>firstName = firstName d, lastName = lastName d, email = email d,
              password = password d, phone = phone d, address = address d,
              u_id = userIdCounter st\<rparr>"
  let ?st0 = "st\<lparr>userIdCounter := userIdCounter st + 1,
                 users := map_set (users st) (userIdCounter st) ?u\<rparr>"
  have "\<forall>(k, v) \<in> set (map_set (users st) (userIdCounter st) ?u).
          u_id v = k \<and> k < userIdCounter st + 1"
    using assms by (intro ball_map_set) (auto simp: storage_inv_def)
  then have "storage_inv ?st0"
    using assms by (simp add: storage_inv_def)
  then show ?thesis
    by (simp add: createUser_def Let_def storage_inv_createAccount)
qed

lemma storage_inv_newStorage: "storage_inv newStorage"
  by (simp add: storage_inv_def newStorage_def)

lemma storage_inv_handle:
  assumes "storage_inv st"
  shows "storage_inv (handle st r)"
proof (cases r)
  case (Register d n1 t1 n2 t2 n3 t3)
  then show ?thesis
    using assms storage_inv_createUser [OF assms, of d n1 t1 n2 t2 n3 t3]
    by (simp add: register_def split_def Let_def split: option.splits)
next
  case (Transfer uid f t amt descr now1 now2)
  then show ?thesis
    using assms
    by (simp add: transfer_def Let_def split_def storage_inv_createTransaction
        storage_inv_updateAccountBalance split: option.splits)
next
  case (Deposit uid a amt descr now)
  then show ?thesis
    using assms
    by (simp add: deposit_def Let_def split_def storage_inv_createTransaction
        storage_inv_updateAccountBalance split: option.splits)
next
  case (Withdrawal uid a amt descr now)
  then show ?thesis
    using assms
    by (simp add: withdrawal_def Let_def split_def storage_inv_createTransaction
        storage_inv_updateAccountBalance split: option.splits)
next
  case (UpdateProfile uid fname lname mail ph addr)
  then show ?thesis
    using storage_inv_updateUser [OF assms, of uid]
    by (simp add: updateProfile_def split: prod.splits option.splits) (metis snd_conv)
next
  case (ChangePassword uid cur new)
  then show ?thesis
    using assms storage_inv_updateUser [OF assms, of uid]
    by (simp add: changePassword_def split: option.splits)
qed

lemma reachable_storage_inv: "reachable st \<Longrightarrow> storage_inv st"
  by (induction rule: reachable.induct) (simp_all add: storage_inv_newStorage storage_inv_handle)

lemma inv_fresh_tx:
  "storage_inv st \<Longrightarrow> transactionIdCounter st \<notin> fst ` set (transactions st)"
  by (fastforce simp: storage_inv_def)

lemma inv_acc_id:
  "storage_inv st \<Longrightarrow> getAccountById st k = Some a \<Longrightarrow> acc_id a = k"
  by (fastforce simp: storage_inv_def getAccountById_def dest: map_get_in_set)

lemma createTransaction_appends:
  assumes "storage_inv st"
  shows "transactions (snd (createTransaction st now d)) =
           transactions st @ [(transactionIdCounter st, fst (createTransaction st now d))]"
  using inv_fresh_tx [OF assms] by (simp add: createTransaction_def Let_def map_set_fresh)

subsection \<open>The scenario, evaluated\<close>

lemma st_alice_eq:
  "st_alice =
     \<lparr>users = [(1, \<lparr>firstName = ''Alice'', lastName = ''Archer'', email = ''alice@example.com'',
            password = ''alicepass1'', phone = None, address = None, u_id = 1\<rparr>)],
      accounts =
        [(1, \<lparr>acc_userId = 1, acc_type = ''checking'', accountNumber = ''9F3A1C07'',
              balance = Fin 2500, acc_id = 1, createdAt = 100\<rparr>),
         (2, \<lparr>acc_userId = 1, acc_type = ''savings'', accountNumber = ''5B2E8D41'',
              balance = Fin 10000, acc_id = 2, createdAt = 100\<rparr>),
         (3, \<lparr>acc_userId = 1, acc_type = ''credit'', accountNumber = ''C4D0A7E2'',
              balance = Fin 0, acc_id = 3, createdAt = 100\<rparr>)],
      transactions = [],
      userIdCounter = 2, accountIdCounter = 4, transactionIdCounter = 1\<rparr>"
  by (simp add: st_alice_def alice_def eval_defs)

lemma st_transfer_eq:
  "st_transfer =
     \<lparr>users = [(1, \<lparr>firstName = ''Alice'', lastName = ''Archer'', email = ''alice@example.com'',
            password = ''alicepass1'', phone = None, address = None, u_id = 1\<rparr>)],
      accounts =
        [(1, \<lparr>acc_userId = 1, acc_type = ''checking'', accountNumber = ''9F3A1C07'',
              balance = Fin 2000, acc_id = 1, createdAt = 100\<rparr>),
         (2, \<lparr>acc_userId = 1, acc_type = ''savings'', accountNumber = ''5B2E8D41'',
              balance = Fin 10500, acc_id = 2, createdAt = 100\<rparr>),
         (3, \<lparr>acc_userId = 1, acc_type = ''credit'', accountNumber = ''C4D0A7E2'',
              balance = Fin 0, acc_id = 3, createdAt = 100\<rparr>)],
      transactions =
        [(1, \<lparr>tx_userId = 1, accountId = 1, tx_type = ''transfer'', amount = - 500,
              description = ''rent'', toAccountId = Some 2, tx_id = 1, date = 200\<rparr>),
         (2, \<lparr>tx_userId = 1, accountId = 2, tx_type = ''transfer'', amount = 500,
              description = ''Transfer from account 9F3A1C07'', toAccountId = None,
              tx_id = 2, date = 200\<rparr>)],
      userIdCounter = 2, accountIdCounter = 4, transactionIdCounter = 3\<rparr>"
  by (simp add: st_transfer_def st_alice_eq eval_defs scenario_sums del: js_add.simps)

lemma st_alice_inv: "storage_inv st_alice"
  by (simp add: st_alice_eq storage_inv_def)

lemma st_alice_transfer:
  "transfer st_alice 1 1 2 500 ''rent'' 200 200 =
     (Inr \<lparr>tx_userId = 1, accountId = 1, tx_type = ''transfer'', amount = - 500,
           description = ''rent'', toAccountId = Some 2, tx_id = 1, date = 200\<rparr>,
      st_transfer)"
  by (simp add: st_transfer_eq) (simp add: st_alice_eq eval_defs scenario_sums del: js_add.simps)

subsection \<open>The handlers on their success paths\<close>

lemma transfer_success:
  assumes "getAccountById st fromId = Some fa" "getAccountById st toId = Some ta"
    "acc_userId fa = uid" "\<not> js_lt (balance fa) amt"
  shows "transfer st uid fromId toId amt descr now1 now2 =
    (let st2 = snd (updateAccountBalance (snd (updateAccountBalance st (acc_id fa) (- amt)))
                 (acc_id ta) amt);
         r1 = createTransaction st2 now1
               \<lparr>tx_userId = uid, accountId = acc_id fa, tx_type = ''transfer'',
                amount = - amt, description = descr, toAccountId = Some (acc_id ta)\<rparr>;
         r2 = createTransaction (snd r1) now2
               \<lparr>tx_userId = acc_userId ta, accountId = acc_id ta, tx_type = ''transfer'',
                amount = amt, description = ''Transfer from account '' @ accountNumber fa,
                toAccountId = None\<rparr>
     in (Inr (fst r1), snd r2))"
  using assms by (simp add: transfer_def Let_def split_def)

lemma transfer_Inr_cases:
  assumes "transfer st uid fromId toId amt descr now1 now2 = (Inr t, st')"
  obtains fa ta where "getAccountById st fromId = Some fa" "getAccountById st toId = Some ta"
    "acc_userId fa = uid" "\<not> js_lt (balance fa) amt"
  using assms by (auto simp: transfer_def Let_def split: option.splits if_splits)

lemma withdrawal_success:
  assumes "getAccountById st aid = Some a" "acc_userId a = uid"
    "\<not> (acc_type a \<noteq> ''credit'' \<and> js_lt (balance a) amt)"
  shows "withdrawal st uid aid amt descr now =
    (let r = createTransaction (snd (updateAccountBalance st (acc_id a) (- amt))) now
               \<lparr>tx_userId = uid, accountId = acc_id a, tx_type = ''withdrawal'',
                amount = - amt, description = descr, toAccountId = None\<rparr>
     in (Inr (fst r), snd r))"
  using assms by (simp add: withdrawal_def Let_def split_def)

section \<open>Conservation of a transfer\<close>





section \<open>The funds check of a withdrawal\<close>





section \<open>The funds check of a transfer\<close>

text \<open>
  Claim C3, as the handler has it. The transfer handler checks the source's balance
  whatever the account's type: there is no exemption for credit accounts, unlike in the
  withdrawal handler. When the source is the caller's and the destination exists, a
  transfer of more than the source's balance (\<^verbatim>\<open>balance < amount\<close>, here \<open>js_lt\<close>) is
  answered \<open>InsufficientFunds\<close> and returns the storage as it was, also from a credit
  account; a transfer of at most the balance succeeds.
\<close>

theorem transfer_funds_check:
  assumes src: "getAccountById st fromId = Some fa"
    and own: "acc_userId fa = uid"
    and dst: "getAccountById st toId = Some ta"
  shows "(js_lt (balance fa) amt \<longrightarrow>
            transfer st uid fromId toId amt descr now1 now2 = (Inl InsufficientFunds, st)) \<and>
         (\<not> js_lt (balance fa) amt \<longrightarrow>
            (\<exists>t st'. transfer st uid fromId toId amt descr now1 now2 = (Inr t, st')))"
  using assms by (simp add: transfer_def Let_def split_def)

theorem transfer_funds_check_witness:
  "transfer st_alice 1 3 1 100 ''cash'' 300 300 = (Inl InsufficientFunds, st_alice) \<and>
   (\<exists>t st'. transfer st_alice 1 1 2 500 ''rent'' 200 200 = (Inr t, st'))"
proof -
  let ?a1 = "\<lparr>acc_userId = 1, acc_type = ''checking'', accountNumber = ''9F3A1C07'',
              balance = Fin 2500, acc_id = 1, createdAt = 100\<rparr>"
  let ?a2 = "\<lparr>acc_userId = 1, acc_type = ''savings'', accountNumber = ''5B2E8D41'',
              balance = Fin 10000, acc_id = 2, createdAt = 100\<rparr>"
  let ?a3 = "\<lparr>acc_userId = 1, acc_type = ''credit'', accountNumber = ''C4D0A7E2'',
              balance = Fin 0, acc_id = 3, createdAt = 100\<rparr>"
  have a1: "getAccountById st_alice 1 = Some ?a1" and a2: "getAccountById st_alice 2 = Some ?a2"
    and a3: "getAccountById st_alice 3 = Some ?a3"
    by (simp_all add: st_alice_eq getAccountById_def map_get_def)
  have own1: "acc_userId ?a1 = 1" and own3: "acc_userId ?a3 = 1" by simp_all
  show ?thesis
    using transfer_funds_check [OF a3 own3 a1, of 100 "''cash''" 300 300]
      transfer_funds_check [OF a1 own1 a2, of 500 "''rent''" 200 200]
    by simp
qed

text \<open>
  Where the claim as worded fails: Alice's credit account (id 3, balance 0) is hers and
  her checking account (id 1) exists, yet a transfer of 100 from the one to the other is
  answered \<open>InsufficientFunds\<close>, while the withdrawal of the same 100 from the
  same account goes through.
\<close>

theorem credit_transfer_counterexample:
  "map_option acc_type (getAccountById st_alice 3) = Some ''credit'' \<and>
   map_option acc_userId (getAccountById st_alice 3) = Some 1 \<and>
   map_option balance (getAccountById st_alice 3) = Some (Fin 0) \<and>
   map_option acc_id (getAccountById st_alice 1) = Some 1 \<and>
   transfer st_alice 1 3 1 100 ''cash'' 300 300 = (Inl InsufficientFunds, st_alice) \<and>
   fst (withdrawal st_alice 1 3 100 ''cash'' 300) =
     Inr \<lparr>tx_userId = 1, accountId = 3, tx_type = ''withdrawal'', amount = - 100,
          description = ''cash'', toAccountId = None, tx_id = 1, date = 300\<rparr>"
  by (simp add: st_alice_eq eval_defs scenario_sums del: js_add.simps)

section \<open>The two legs of a transfer\<close>

lemma deposit_success:
  assumes "getAccountById st aid = Some a" "acc_userId a = uid"
  shows "deposit st uid aid amt descr now =
    (let r = createTransaction (snd (updateAccountBalance st (acc_id a) amt)) now
               \<lparr>tx_userId = uid, accountId = acc_id a, tx_type = ''deposit'',
                amount = amt, description = descr, toAccountId = None\<rparr>
     in (Inr (fst r), snd r))"
  using assms by (simp add: deposit_def Let_def split_def)

lemma deposit_appends:
  assumes inv: "storage_inv st"
  shows "\<exists>ts. transactions (snd (deposit st uid aid amt descr now)) = transactions st @ ts \<and>
           length ts \<le> 1"
proof (cases "\<exists>a. getAccountById st aid = Some a \<and> acc_userId a = uid")
  case True
  then obtain a where a: "getAccountById st aid = Some a" "acc_userId a = uid" by blast
  have "storage_inv (snd (updateAccountBalance st (acc_id a) amt))"
    using inv by (rule storage_inv_updateAccountBalance)
  from createTransaction_appends [OF this] show ?thesis
    unfolding deposit_success [OF a] Let_def
    by (simp add: updateAccountBalance_other)
next
  case False
  then have "snd (deposit st uid aid amt descr now) = st"
    by (auto simp: deposit_def split: option.splits)
  then show ?thesis by simp
qed

lemma withdrawal_appends:
  assumes inv: "storage_inv st"
  shows "\<exists>ts. transactions (snd (withdrawal st uid aid amt descr now)) = transactions st @ ts \<and>
           length ts \<le> 1"
proof (cases "\<exists>a. getAccountById st aid = Some a \<and> acc_userId a = uid \<and>
                 \<not> (acc_type a \<noteq> ''credit'' \<and> js_lt (balance a) amt)")
  case True
  then obtain a where a: "getAccountById st aid = Some a" "acc_userId a = uid"
     "\<not> (acc_type a \<noteq> ''credit'' \<and> js_lt (balance a) amt)" by blast
  have "storage_inv (snd (updateAccountBalance st (acc_id a) (- amt)))"
    using inv by (rule storage_inv_updateAccountBalance)
  from createTransaction_appends [OF this] show ?thesis
    unfolding withdrawal_success [OF a] Let_def
    by (simp add: updateAccountBalance_other)
next
  case False
  then have "snd (withdrawal st uid aid amt descr now) = st"
    by (auto simp: withdrawal_def split: option.splits)
  then show ?thesis by simp
qed

lemma createAccount_transactions:
  "transactions (snd (createAccount st now d)) = transactions st"
  by (simp add: createAccount_def Let_def)

lemma register_transactions:
  "transactions (snd (register st d n1 t1 n2 t2 n3 t3)) = transactions st"
  by (simp add: register_def createUser_def Let_def split_def createAccount_transactions
      split: option.splits)

lemma updateUser_transactions:
  "transactions (snd (updateUser st i d)) = transactions st"
  by (simp add: updateUser_def Let_def split: option.splits)

lemma updateProfile_transactions:
  "transactions (snd (updateProfile st uid fname lname mail ph addr)) = transactions st"
  using updateUser_transactions [of st uid]
  by (simp add: updateProfile_def split: prod.splits option.splits) (metis snd_conv)

lemma changePassword_transactions:
  "transactions (snd (changePassword st uid cur new)) = transactions st"
  by (simp add: changePassword_def updateUser_transactions split: option.splits)

lemma transfer_legs:
  assumes inv: "storage_inv st"
    and ok: "transfer st uid fromId toId amt descr now1 now2 = (Inr t, st')"
  shows "\<exists>fa ta credit.
        getAccountById st fromId = Some fa \<and> getAccountById st toId = Some ta \<and>
        t = \<lparr>tx_userId = uid, accountId = fromId, tx_type = ''transfer'', amount = - amt,
             description = descr, toAccountId = Some toId,
             tx_id = transactionIdCounter st, date = now1\<rparr> \<and>
        credit = \<lparr>tx_userId = acc_userId ta, accountId = toId, tx_type = ''transfer'',
             amount = amt, description = ''Transfer from account '' @ accountNumber fa,
             toAccountId = None, tx_id = transactionIdCounter st + 1, date = now2\<rparr> \<and>
        transactions st' = transactions st @ [(tx_id t, t), (tx_id credit, credit)] \<and>
        amount t + amount credit = 0"
proof -
  from ok obtain fa ta where fa: "getAccountById st fromId = Some fa"
    and ta: "getAccountById st toId = Some ta"
    and own: "acc_userId fa = uid" and funds: "\<not> js_lt (balance fa) amt"
    by (rule transfer_Inr_cases)
  have ida: "acc_id fa = fromId" and idb: "acc_id ta = toId"
    using inv fa ta by (auto dest: inv_acc_id)
  let ?st2 = "snd (updateAccountBalance (snd (updateAccountBalance st fromId (- amt))) toId amt)"
  let ?d1 = "\<lparr>tx_userId = uid, accountId = fromId, tx_type = ''transfer'',
                amount = - amt, description = descr, toAccountId = Some toId\<rparr>"
  let ?d2 = "\<lparr>tx_userId = acc_userId ta, accountId = toId, tx_type = ''transfer'',
                amount = amt, description = ''Transfer from account '' @ accountNumber fa,
                toAccountId = None\<rparr>"
  let ?st3 = "snd (createTransaction ?st2 now1 ?d1)"
  have inv2: "storage_inv ?st2"
    using inv by (intro storage_inv_updateAccountBalance)
  have inv3: "storage_inv ?st3"
    using inv2 by (rule storage_inv_createTransaction)
  have c2: "transactionIdCounter ?st2 = transactionIdCounter st"
    and t2: "transactions ?st2 = transactions st"
    by (simp_all add: updateAccountBalance_other)
  have eq: "(Inr t, st') = (Inr (fst (createTransaction ?st2 now1 ?d1)),
                 snd (createTransaction ?st3 now2 ?d2))"
    using ok transfer_success [OF fa ta own funds, of descr now1 now2] ida idb
    by (simp add: Let_def)
  then have t: "t = fst (createTransaction ?st2 now1 ?d1)"
    and st': "st' = snd (createTransaction ?st3 now2 ?d2)" by simp_all
  have t_eq: "t = \<lparr>tx_userId = uid, accountId = fromId, tx_type = ''transfer'', amount = - amt,
             description = descr, toAccountId = Some toId,
             tx_id = transactionIdCounter st, date = now1\<rparr>"
    unfolding t by (simp add: createTransaction_def Let_def c2)
  have c3: "transactionIdCounter ?st3 = transactionIdCounter st + 1"
    by (simp add: createTransaction_other c2)
  have cr: "fst (createTransaction ?st3 now2 ?d2) =
      \<lparr>tx_userId = acc_userId ta, accountId = toId, tx_type = ''transfer'',
             amount = amt, description = ''Transfer from account '' @ accountNumber fa,
             toAccountId = None, tx_id = transactionIdCounter st + 1, date = now2\<rparr>"
    using c3 by (simp add: createTransaction_def Let_def)
  have "transactions st' = transactions ?st3 @ [(transactionIdCounter ?st3, fst (createTransaction ?st3 now2 ?d2))]"
    unfolding st' by (rule createTransaction_appends [OF inv3])
  also have "transactions ?st3 = transactions ?st2 @ [(transactionIdCounter ?st2, t)]"
    unfolding t by (rule createTransaction_appends [OF inv2])
  finally have "transactions st' = transactions st @
      [(transactionIdCounter st, t), (transactionIdCounter st + 1, fst (createTransaction ?st3 now2 ?d2))]"
    by (simp add: c2 t2 c3)
  then show ?thesis
    using fa ta t_eq cr by simp
qed

text \<open>
  Claim C4. A successful transfer appends exactly two ledger entries, in this order. The
  first, which is also the handler's result, is the debit leg: posted against the source
  account, amount \<open>- amt\<close>, the caller's user id, the caller's description, and the
  destination's id as \<^verbatim>\<open>toAccountId\<close>. The second is the credit leg: posted against
  the destination, amount \<open>amt\<close>, the user id of the destination's owner, the
  description "Transfer from account" followed by the source's account number, and no
  \<^verbatim>\<open>toAccountId\<close>. The two amounts sum to zero. No other request appends more than
  one entry: a deposit or a withdrawal appends at most one, and registering, saving a
  profile or changing a password appends none.
\<close>

theorem transfer_pairing:
  assumes inv: "storage_inv st"
  shows "(transfer st uid fromId toId amt descr now1 now2 = (Inr t, st') \<longrightarrow>
     (\<exists>fa ta credit.
        getAccountById st fromId = Some fa \<and> getAccountById st toId = Some ta \<and>
        t = \<lparr>tx_userId = uid, accountId = fromId, tx_type = ''transfer'', amount = - amt,
             description = descr, toAccountId = Some toId,
             tx_id = transactionIdCounter st, date = now1\<rparr> \<and>
        credit = \<lparr>tx_userId = acc_userId ta, accountId = toId, tx_type = ''transfer'',
             amount = amt, description = ''Transfer from account '' @ accountNumber fa,
             toAccountId = None, tx_id = transactionIdCounter st + 1, date = now2\<rparr> \<and>
        transactions st' = transactions st @ [(tx_id t, t), (tx_id credit, credit)] \<and>
        amount t + amount credit = 0)) \<and>
   (\<exists>ts. transactions (snd (deposit st uid' aid amt' descr' now)) = transactions st @ ts \<and>
          length ts \<le> 1) \<and>
   (\<exists>ts. transactions (snd (withdrawal st uid' aid amt' descr' now)) = transactions st @ ts \<and>
          length ts \<le> 1) \<and>
   transactions (snd (register st d n1 t1 n2 t2 n3 t3)) = transactions st \<and>
   transactions (snd (updateProfile st uid' fname lname mail ph addr)) = transactions st \<and>
   transactions (snd (changePassword st uid' cur new)) = transactions st"
  using transfer_legs [OF inv, of uid fromId toId amt descr now1 now2 t st']
    deposit_appends [OF inv] withdrawal_appends [OF inv]
  by (simp only: register_transactions updateProfile_transactions changePassword_transactions
      simp_thms) blast

text \<open>Alice's transfer of 500 writes entries 1 and 2 and returns entry 1.\<close>

theorem transfer_pairing_witness:
  "fst (transfer st_alice 1 1 2 500 ''rent'' 200 200) =
     Inr \<lparr>tx_userId = 1, accountId = 1, tx_type = ''transfer'', amount = - 500,
          description = ''rent'', toAccountId = Some 2, tx_id = 1, date = 200\<rparr> \<and>
   transactions st_transfer = transactions st_alice @
     [(1, \<lparr>tx_userId = 1, accountId = 1, tx_type = ''transfer'', amount = - 500,
          description = ''rent'', toAccountId = Some 2, tx_id = 1, date = 200\<rparr>),
      (2, \<lparr>tx_userId = 1, accountId = 2, tx_type = ''transfer'', amount = 500,
          description = ''Transfer from account 9F3A1C07'', toAccountId = None,
          tx_id = 2, date = 200\<rparr>)]"
proof -
  let ?t = "\<lparr>tx_userId = 1, accountId = 1, tx_type = ''transfer'', amount = - 500,
          description = ''rent'', toAccountId = Some 2, tx_id = 1, date = 200\<rparr>"
  have a: "getAccountById st_alice 1 = Some \<lparr>acc_userId = 1, acc_type = ''checking'',
      accountNumber = ''9F3A1C07'', balance = Fin 2500, acc_id = 1, createdAt = 100\<rparr>"
    "getAccountById st_alice 2 = Some \<lparr>acc_userId = 1, acc_type = ''savings'',
      accountNumber = ''5B2E8D41'', balance = Fin 10000, acc_id = 2, createdAt = 100\<rparr>"
    "transactionIdCounter st_alice = 1"
    by (simp_all add: st_alice_eq getAccountById_def map_get_def)
  from transfer_pairing [OF st_alice_inv, of 1 1 2 500 "''rent''" 200 200 ?t st_transfer]
    st_alice_transfer a
  show ?thesis by auto
qed

section \<open>The ownership check\<close>

text \<open>
  Claim C5, as the handlers have it. Deposit, withdrawal and transfer share one guard on
  the account the request is posted against (\<^verbatim>\<open>!account || account.userId !== userId\<close>):
  the answer is \<open>PermissionDenied\<close> (status 403) exactly when the id resolves to no
  account or to an account of another user. A missing account is therefore not answered
  with a 404. Whenever the guard fires the storage is returned as it was, whatever the
  balance and the amount.
\<close>

theorem ownership_gate:
  "(fst (deposit st uid aid amt descr now) = Inl PermissionDenied \<longleftrightarrow>
      \<not> (\<exists>a. getAccountById st aid = Some a \<and> acc_userId a = uid)) \<and>
   (fst (withdrawal st uid aid amt descr now) = Inl PermissionDenied \<longleftrightarrow>
      \<not> (\<exists>a. getAccountById st aid = Some a \<and> acc_userId a = uid)) \<and>
   (fst (transfer st uid aid toId amt descr now now2) = Inl PermissionDenied \<longleftrightarrow>
      \<not> (\<exists>a. getAccountById st aid = Some a \<and> acc_userId a = uid)) \<and>
   (\<not> (\<exists>a. getAccountById st aid = Some a \<and> acc_userId a = uid) \<longrightarrow>
      snd (deposit st uid aid amt descr now) = st \<and>
      snd (withdrawal st uid aid amt descr now) = st \<and>
      snd (transfer st uid aid toId amt descr now now2) = st)"
  by (auto simp: deposit_def withdrawal_def transfer_def Let_def split_def split: option.splits)

text \<open>
  An id that resolves to nothing (99), and Alice's account 1 asked for by user 2, are
  both refused, with nothing changed; Alice's own deposit is not refused.
\<close>

theorem ownership_gate_witness:
  "deposit st_alice 1 99 50 ''gift'' 300 = (Inl PermissionDenied, st_alice) \<and>
   withdrawal st_alice 2 1 50 ''cash'' 300 = (Inl PermissionDenied, st_alice) \<and>
   transfer st_alice 2 1 3 50 ''move'' 300 300 = (Inl PermissionDenied, st_alice) \<and>
   fst (deposit st_alice 1 1 50 ''gift'' 300) \<noteq> Inl PermissionDenied"
proof -
  have a: "getAccountById st_alice 99 = None"
    "getAccountById st_alice 1 = Some \<lparr>acc_userId = 1, acc_type = ''checking'',
      accountNumber = ''9F3A1C07'', balance = Fin 2500, acc_id = 1, createdAt = 100\<rparr>"
    by (simp_all add: st_alice_eq getAccountById_def map_get_def)
  show ?thesis
    using ownership_gate [of st_alice 1 99 50 "''gift''" 300 3 300]
      ownership_gate [of st_alice 2 1 50 "''cash''" 300 3 300]
      ownership_gate [of st_alice 2 1 50 "''move''" 300 3 300]
      ownership_gate [of st_alice 1 1 50 "''gift''" 300 3 300] a
    by (simp add: prod_eq_iff)
qed

text \<open>
  Where the claim as worded fails: account 99 does not exist, and the three handlers
  answer 403 \<open>PermissionDenied\<close>, not a 404.
\<close>

theorem missing_account_counterexample:
  "getAccountById st_alice 99 = None \<and>
   deposit st_alice 1 99 50 ''gift'' 300 = (Inl PermissionDenied, st_alice) \<and>
   withdrawal st_alice 1 99 50 ''cash'' 300 = (Inl PermissionDenied, st_alice) \<and>
   transfer st_alice 1 99 1 50 ''move'' 300 300 = (Inl PermissionDenied, st_alice) \<and>
   http_status PermissionDenied = 403"
  by (simp add: st_alice_eq eval_defs)

section \<open>Emails of stored users\<close>

lemma st_dup_reachable: "reachable st_dup"
  unfolding st_dup_def st_two_def st_alice_def
  by (intro reachable_handle reachable_new)

text \<open>
  Claim C6 does not hold of the handlers. Registration does refuse an email that is
  taken (\<open>register_duplicate_email\<close> below), but the profile handler passes the body's
  email to \<^verbatim>\<open>updateUser\<close>, which stores it without looking it up. After Alice and Bob
  have registered, Bob's profile update with Alice's email is answered with his updated
  user, and the storage, a reachable one, holds two users with the same email.
\<close>

theorem duplicate_email_after_updateProfile:
  "reachable st_dup \<and>
   map email (map_values (users st_two)) = [''alice@example.com'', ''bob@example.com''] \<and>
   fst (updateProfile st_two 2 ''Bob'' ''Baker'' ''alice@example.com'' None None) =
     Inr \<lparr>r_firstName = ''Bob'', r_lastName = ''Baker'', r_email = ''alice@example.com'',
          r_phone = None, r_address = None, r_id = 2\<rparr> \<and>
   st_dup = snd (updateProfile st_two 2 ''Bob'' ''Baker'' ''alice@example.com'' None None) \<and>
   map email (map_values (users st_dup)) = [''alice@example.com'', ''alice@example.com'']"
  using st_dup_reachable
  by (simp add: st_dup_def) (simp add: st_two_def bob_def st_alice_eq eval_defs)

lemma register_duplicate_email:
  "getUserByEmail st (email d) = Some u \<Longrightarrow>
     register st d n1 t1 n2 t2 n3 t3 = (Inl UserExists, st)"
  by (simp add: register_def)

section \<open>Listing the ledger\<close>

lemma set_js_insert: "set (js_insert cmp x xs) = insert x (set xs)"
  by (induction xs) auto

lemma mset_js_insert: "mset (js_insert cmp x xs) = add_mset x (mset xs)"
  by (induction xs) auto

lemma mset_js_sort: "mset (js_sort cmp xs) = mset xs"
  by (induction xs) (simp_all add: js_sort_def mset_js_insert)

lemma sorted_js_insert:
  "sorted_wrt (\<lambda>a b. date b \<le> date a) xs \<Longrightarrow>
   sorted_wrt (\<lambda>a b. date b \<le> date a) (js_insert byDateDesc x xs)"
  by (induction xs) (auto simp: set_js_insert byDateDesc_def)

lemma sorted_js_sort: "sorted_wrt (\<lambda>a b. date b \<le> date a) (js_sort byDateDesc xs)"
  by (induction xs) (simp_all add: js_sort_def sorted_js_insert)

lemma filter_js_insert:
  "filter (\<lambda>t. date t = d) (js_insert byDateDesc x xs) =
     (if date x = d then x # filter (\<lambda>t. date t = d) xs else filter (\<lambda>t. date t = d) xs)"
  by (induction xs) (auto simp: byDateDesc_def)

lemma filter_js_sort:
  "filter (\<lambda>t. date t = d) (js_sort byDateDesc xs) = filter (\<lambda>t. date t = d) xs"
  by (induction xs) (simp_all add: js_sort_def filter_js_insert)

text \<open>
  Claim C7, as the storage has it. \<^verbatim>\<open>getTransactionsByUserId\<close> returns exactly the
  ledger's entries of that user (each as often as the ledger holds it), newest first;
  entries with the same timestamp come in the order in which they were appended, the
  earliest first, since the sort compares timestamps only and is stable.
  \<^verbatim>\<open>getTransactionsByAccountId\<close> does the same for the entries posted against an
  account.
\<close>

theorem listing_order:
  "mset (getTransactionsByUserId st uid) =
     mset (filter (\<lambda>t. tx_userId t = uid) (map_values (transactions st))) \<and>
   sorted_wrt (\<lambda>a b. date b \<le> date a) (getTransactionsByUserId st uid) \<and>
   (\<forall>d. filter (\<lambda>t. date t = d) (getTransactionsByUserId st uid) =
        filter (\<lambda>t. date t = d) (filter (\<lambda>t. tx_userId t = uid) (map_values (transactions st)))) \<and>
   mset (getTransactionsByAccountId st aid) =
     mset (filter (\<lambda>t. accountId t = aid) (map_values (transactions st))) \<and>
   sorted_wrt (\<lambda>a b. date b \<le> date a) (getTransactionsByAccountId st aid) \<and>
   (\<forall>d. filter (\<lambda>t. date t = d) (getTransactionsByAccountId st aid) =
        filter (\<lambda>t. date t = d) (filter (\<lambda>t. accountId t = aid) (map_values (transactions st))))"
  unfolding getTransactionsByUserId_def getTransactionsByAccountId_def
  by (simp only: mset_js_sort sorted_js_sort filter_js_sort simp_thms)

theorem listing_order_witness:
  "map tx_id (filter (\<lambda>t. tx_userId t = 1) (map_values (transactions st_transfer))) = [1, 2] \<and>
   sorted_wrt (\<lambda>a b. date b \<le> date a) (getTransactionsByUserId st_transfer 1) \<and>
   map tx_id (filter (\<lambda>t. date t = 200) (getTransactionsByUserId st_transfer 1)) = [1, 2]"
proof -
  have "map tx_id (filter (\<lambda>t. tx_userId t = 1) (map_values (transactions st_transfer))) = [1, 2]"
    "map tx_id (filter (\<lambda>t. date t = 200)
       (filter (\<lambda>t. tx_userId t = 1) (map_values (transactions st_transfer)))) = [1, 2]"
    by (simp_all add: st_transfer_eq map_values_def)
  then show ?thesis
    using listing_order [of st_transfer 1 1] by simp
qed

text \<open>
  Where the claim as worded fails: the two entries of Alice's transfer carry the same
  timestamp and the same user; entry 1 was appended before entry 2, and the listing
  returns entry 1 first, not the most recently appended one.
\<close>

theorem tie_order_counterexample:
  "map tx_id (map_values (transactions st_transfer)) = [1, 2] \<and>
   map tx_userId (map_values (transactions st_transfer)) = [1, 1] \<and>
   map date (map_values (transactions st_transfer)) = [200, 200] \<and>
   map tx_id (getTransactionsByUserId st_transfer 1) = [1, 2] \<and>
   map tx_id (getTransactionsByUserId st_transfer 1) \<noteq> [2, 1]"
  by (simp add: st_transfer_eq getTransactionsByUserId_def map_values_def js_sort_def
      byDateDesc_def)

section \<open>Balances and cents\<close>

lemma st_cents_reachable: "reachable st_cents"
  unfolding st_cents_def st_alice_def
  by (intro reachable_handle reachable_new)

text \<open>
  Claim C8 does not hold of the storage. \<^verbatim>\<open>updateAccountBalance\<close> adds doubles and
  stores the sum as it comes; nothing rounds it to cents, though the schema declares the
  column \<^verbatim>\<open>decimal(10, 2)\<close>. Alice deposits "0.10" and then "0.20" on her credit
  account, which held 0. Both amounts have two decimal places and \<^verbatim>\<open>parseFloat\<close> turns
  them into the nearest doubles. The balance after the two deposits is
  0.3000000000000000444 (JavaScript prints 0.30000000000000004): a hundred times it is
  not a whole number, and it is not the double nearest to 0.30 either.
\<close>

theorem cents_residue:
  "reachable st_cents \<and>
   round_double (10 / 100) = Fin parsed_0_10 \<and>
   round_double (20 / 100) = Fin parsed_0_20 \<and>
   map_option balance (getAccountById st_alice 3) = Some (Fin 0) \<and>
   st_cents = snd (deposit (snd (deposit st_alice 1 3 parsed_0_10 ''coins'' 300))
                 1 3 parsed_0_20 ''coins'' 301) \<and>
   map_option balance (getAccountById st_cents 3) =
     Some (Fin (1351079888211149 / 4503599627370496)) \<and>
   rat_of_int \<lfloor>100 * (1351079888211149 / 4503599627370496 :: rat)\<rfloor> \<noteq>
     100 * (1351079888211149 / 4503599627370496) \<and>
   round_double (30 / 100) \<noteq> Fin (1351079888211149 / 4503599627370496)"
proof -
  have "map_option balance (getAccountById st_cents 3) =
     Some (Fin (1351079888211149 / 4503599627370496))"
    by (simp add: st_cents_def st_alice_eq eval_defs cent_sums del: js_add.simps)
  moreover have "map_option balance (getAccountById st_alice 3) = Some (Fin 0)"
    by (simp add: st_alice_eq getAccountById_def map_get_def)
  moreover have "rat_of_int \<lfloor>100 * (1351079888211149 / 4503599627370496 :: rat)\<rfloor> \<noteq>
     100 * (1351079888211149 / 4503599627370496)"
    by code_simp
  ultimately show ?thesis
    using st_cents_reachable parsed_cents(1,2) cent_sums(9)
    by (simp add: st_cents_def)
qed

section \<open>Deposits at the same time\<close>


lemma deposit_step_eq:
  "deposit_step st h =
     (h\<lparr>d_pc := fst (deposit_pc_step h st (d_pc h))\<rparr>, snd (deposit_pc_step h st (d_pc h)))"
  by (simp add: deposit_step_def split_def Let_def)

lemma deposit_step_params:
  "d_uid (fst (deposit_step st h)) = d_uid h"
  "d_accountId (fst (deposit_step st h)) = d_accountId h"
  "d_amount (fst (deposit_step st h)) = d_amount h"
  by (simp_all add: deposit_step_eq split_def)












text \<open>Run alone, the three steps are the handler.\<close>

lemma deposit_steps:
  "run [0, 0, 0] ([new_deposit uid aid amt descr now], st) =
     ([(new_deposit uid aid amt descr now)
          \<lparr>d_pc := Responded (fst (deposit st uid aid amt descr now))\<rparr>],
      snd (deposit st uid aid amt descr now))"
proof (cases "getAccountById st aid")
  case None
  then show ?thesis
    by (simp add: deposit_step_eq new_deposit_def deposit_def)
next
  case (Some a)
  then show ?thesis
    by (simp add: deposit_step_eq new_deposit_def deposit_def split_def Let_def)
qed



section \<open>Checking a password\<close>

lemma find_unique_key:
  "distinct (map f xs) \<Longrightarrow> (find (\<lambda>x. f x = k) xs = Some x \<longleftrightarrow> x \<in> set xs \<and> f x = k)"
  by (induction xs) (auto simp: image_iff)

text \<open>
  Claim C10, for storages in which no two users share an email. There
  \<^verbatim>\<open>validateUserPassword\<close> returns a user exactly when that user is stored, has the
  email, and its stored password is the very string supplied (the password is stored and
  compared as it is, nothing is hashed); the login handler then answers with that user,
  and answers \<open>InvalidCredentials\<close> exactly when no stored user has that email and that
  password.
\<close>

theorem authenticate_unique_email:
  assumes uniq: "distinct (map email (map_values (users st)))"
  shows "(validateUserPassword st e pw = Some u \<longleftrightarrow>
            u \<in> set (map_values (users st)) \<and> email u = e \<and> password u = pw) \<and>
         (validateUserPassword st e pw = Some u \<longrightarrow> login st e pw = Inr (withoutPassword u)) \<and>
         (login st e pw = Inl InvalidCredentials \<longleftrightarrow>
            \<not> (\<exists>v \<in> set (map_values (users st)). email v = e \<and> password v = pw))"
proof -
  have fu: "find (\<lambda>x. email x = e) (map_values (users st)) = Some x \<longleftrightarrow>
              x \<in> set (map_values (users st)) \<and> email x = e" for x
    by (rule find_unique_key [OF uniq])
  have v: "validateUserPassword st e pw = Some v \<longleftrightarrow>
            find (\<lambda>x. email x = e) (map_values (users st)) = Some v \<and> password v = pw" for v
    by (auto simp: validateUserPassword_def getUserByEmail_def split: option.splits)
  have 1: "validateUserPassword st e pw = Some v \<longleftrightarrow>
            v \<in> set (map_values (users st)) \<and> email v = e \<and> password v = pw" for v
    unfolding v fu by blast
  have 2: "login st e pw = Inl InvalidCredentials \<longleftrightarrow> validateUserPassword st e pw = None"
    by (simp add: login_def split: option.splits)
  have 3: "validateUserPassword st e pw = None \<longleftrightarrow>
       \<not> (\<exists>v \<in> set (map_values (users st)). email v = e \<and> password v = pw)"
    using 1 by (metis not_Some_eq)
  have 4: "validateUserPassword st e pw = Some u \<longrightarrow> login st e pw = Inr (withoutPassword u)"
    by (simp add: login_def)
  have 5: "login st e pw = Inl InvalidCredentials \<longleftrightarrow>
       \<not> (\<exists>v \<in> set (map_values (users st)). email v = e \<and> password v = pw)"
    unfolding 2 by (rule 3)
  show ?thesis
    by (intro conjI) (rule 1, rule 4, rule 5)
qed

text \<open>Bob logs in with his own password, and not with Alice's.\<close>

theorem authenticate_unique_email_witness:
  "validateUserPassword st_two ''bob@example.com'' ''bobspass99'' =
     Some \<lparr>firstName = ''Bob'', lastName = ''Baker'', email = ''bob@example.com'',
           password = ''bobspass99'', phone = None, address = None, u_id = 2\<rparr> \<and>
   login st_two ''bob@example.com'' ''bobspass99'' =
     Inr \<lparr>r_firstName = ''Bob'', r_lastName = ''Baker'', r_email = ''bob@example.com'',
          r_phone = None, r_address = None, r_id = 2\<rparr> \<and>
   login st_two ''bob@example.com'' ''alicepass1'' = Inl InvalidCredentials"
proof -
  let ?b = "\<lparr>firstName = ''Bob'', lastName = ''Baker'', email = ''bob@example.com'',
           password = ''bobspass99'', phone = None, address = None, u_id = 2\<rparr>"
  have us: "map_values (users st_two) =
     [\<lparr>firstName = ''Alice'', lastName = ''Archer'', email = ''alice@example.com'',
            password = ''alicepass1'', phone = None, address = None, u_id = 1\<rparr>, ?b]"
    by (simp add: st_two_def bob_def st_alice_eq eval_defs)
  have uniq: "distinct (map email (map_values (users st_two)))"
    by (simp add: us)
  show ?thesis
    using authenticate_unique_email [OF uniq, of "''bob@example.com''" "''bobspass99''" ?b]
      authenticate_unique_email [OF uniq, of "''bob@example.com''" "''alicepass1''" ?b]
    by (simp add: us withoutPassword_def)
qed

text \<open>
  Where the claim as worded fails: once Bob's profile carries Alice's email, a stored
  user (Bob) has that email and the password \<open>bobspass99\<close>, yet the pair is refused:
  the lookup by email stops at the first user stored with it, Alice.
\<close>

theorem shared_email_counterexample:
  "map email (map_values (users st_dup)) = [''alice@example.com'', ''alice@example.com''] \<and>
   map password (map_values (users st_dup)) = [''alicepass1'', ''bobspass99''] \<and>
   validateUserPassword st_dup ''alice@example.com'' ''bobspass99'' = None \<and>
   login st_dup ''alice@example.com'' ''bobspass99'' = Inl InvalidCredentials"
  by (simp add: st_dup_def st_two_def bob_def st_alice_eq eval_defs)

end
